theory Spec2Isabelle
  imports Complex_Main "HOL-Library.Word" "HOL-Library.Multiset"
begin

unbundle bit_operations_syntax

section \<open>Floating-point scalars\<close>

text \<open>
  The header \<^verbatim>\<open>custom_comparisons.hpp\<close> is generic in a floating-point type \<^verbatim>\<open>T\<close>.
  A value of a binary interchange format is a sign bit, an exponent field of \<open>'e\<close> bits
  and a fraction field of \<open>'f\<close> bits: \<^verbatim>\<open>float\<close> is \<open>(8, 23) fp\<close>, \<^verbatim>\<open>double\<close> is
  \<open>(11, 52) fp\<close>. Every bit pattern is a value, so NaNs keep their sign and payload
  and the two zeros stay distinct.
\<close>

datatype ('x, 'm) fp_fields = Fp (sign: bool) (expo: 'x) (mant: 'm)

type_synonym ('e, 'f) fp = "('e word, 'f word) fp_fields"
type_synonym float = "(8, 23) fp"
type_synonym double = "(11, 52) fp"

text \<open>\<^verbatim>\<open>std::isnan\<close>: the exponent field is all ones and the fraction is not zero.\<close>

definition isnan :: "('e::len, 'f::len) fp \<Rightarrow> bool" where
  "isnan x = (expo x = - 1 \<and> mant x \<noteq> 0)"

definition isinf :: "('e::len, 'f::len) fp \<Rightarrow> bool" where
  "isinf x = (expo x = - 1 \<and> mant x = 0)"

text \<open>
  The native comparisons. On values that are not NaN the order of the numbers is the
  order of the sign-magnitude integers read off the bit pattern (both zeros read 0,
  the infinities are the two extremes); every native comparison with a NaN operand is
  false. Lemma \<open>ord_key_valof\<close> below shows that the key orders bit patterns as the
  numbers they denote are ordered.
\<close>

definition mag :: "('e::len, 'f::len) fp \<Rightarrow> nat" where
  "mag x = unat (expo x) * 2 ^ LENGTH('f) + unat (mant x)"

definition ord_key :: "('e::len, 'f::len) fp \<Rightarrow> int" where
  "ord_key x = (if sign x then - int (mag x) else int (mag x))"

definition fp_lt :: "('e::len, 'f::len) fp \<Rightarrow> ('e, 'f) fp \<Rightarrow> bool" where
  "fp_lt a b = (\<not> isnan a \<and> \<not> isnan b \<and> ord_key a < ord_key b)"

definition fp_gt :: "('e::len, 'f::len) fp \<Rightarrow> ('e, 'f) fp \<Rightarrow> bool" where
  "fp_gt a b = (\<not> isnan a \<and> \<not> isnan b \<and> ord_key b < ord_key a)"

definition fp_eq :: "('e::len, 'f::len) fp \<Rightarrow> ('e, 'f) fp \<Rightarrow> bool" where
  "fp_eq a b = (\<not> isnan a \<and> \<not> isnan b \<and> ord_key a = ord_key b)"

text \<open>
  \<^verbatim>\<open>a <=> b\<close> on a floating-point type yields a \<^verbatim>\<open>std::partial_ordering\<close>:
  less, greater or equivalent as the native comparisons say, unordered otherwise.
\<close>

datatype partial_ordering = Less | Equivalent | Greater | Unordered

definition three_way :: "('e::len, 'f::len) fp \<Rightarrow> ('e, 'f) fp \<Rightarrow> partial_ordering" where
  "three_way a b =
     (if fp_lt a b then Less
      else if fp_gt a b then Greater
      else if fp_eq a b then Equivalent
      else Unordered)"

section \<open>The scalar comparisons\<close>

text \<open>
  Each function has two bodies, selected by \<^verbatim>\<open>__cpp_impl_three_way_comparison\<close>.
  The plain name is the three-way body, the suffix \<open>_pre\<close> the pre-C++20 body.
  The template parameter \<^verbatim>\<open>After\<close> is the first argument.
\<close>

definition less_than_f :: "bool \<Rightarrow> ('e::len, 'f::len) fp \<Rightarrow> ('e, 'f) fp \<Rightarrow> bool" where
  "less_than_f After a b =
     (let cmp = three_way a b in
      if cmp = Less then True
      else if cmp = Greater \<or> cmp = Equivalent then False
      else
        let a_nan = isnan a; b_nan = isnan b in
        if \<not> a_nan \<and> b_nan then After
        else if a_nan \<and> \<not> b_nan then \<not> After
        else False)"

definition less_than_f_pre :: "bool \<Rightarrow> ('e::len, 'f::len) fp \<Rightarrow> ('e, 'f) fp \<Rightarrow> bool" where
  "less_than_f_pre After a b =
     (if \<not> isnan a then
        (if \<not> isnan b then fp_lt a b else After)
      else
        (if \<not> isnan b then \<not> After else False))"

definition greater_than_f :: "bool \<Rightarrow> ('e::len, 'f::len) fp \<Rightarrow> ('e, 'f) fp \<Rightarrow> bool" where
  "greater_than_f After a b =
     (let cmp = three_way a b in
      if cmp = Greater then True
      else if cmp = Less \<or> cmp = Equivalent then False
      else
        let a_nan = isnan a; b_nan = isnan b in
        if \<not> a_nan \<and> b_nan then \<not> After
        else if a_nan \<and> \<not> b_nan then After
        else False)"

definition greater_than_f_pre :: "bool \<Rightarrow> ('e::len, 'f::len) fp \<Rightarrow> ('e, 'f) fp \<Rightarrow> bool" where
  "greater_than_f_pre After a b =
     (if \<not> isnan a then
        (if \<not> isnan b then fp_gt a b else \<not> After)
      else
        (if \<not> isnan b then After else False))"

definition equal_to_f :: "('e::len, 'f::len) fp \<Rightarrow> ('e, 'f) fp \<Rightarrow> bool" where
  "equal_to_f a b =
     (let cmp = three_way a b in
      if cmp = Equivalent then True
      else if cmp \<noteq> Unordered then False
      else isnan a \<and> isnan b)"

definition equal_to_f_pre :: "('e::len, 'f::len) fp \<Rightarrow> ('e, 'f) fp \<Rightarrow> bool" where
  "equal_to_f_pre a b =
     (if \<not> isnan a \<and> \<not> isnan b then fp_eq a b
      else isnan a \<and> isnan b)"

section \<open>The vector functors\<close>

text \<open>
  \<^verbatim>\<open>std::equal(first1, last1, first2, p)\<close> walks the first range and reads the second
  in step; reading the second range past its end is undefined, which is \<open>None\<close> here.
\<close>

fun std_equal :: "('a \<Rightarrow> 'a \<Rightarrow> bool) \<Rightarrow> 'a list \<Rightarrow> 'a list \<Rightarrow> bool option" where
  "std_equal p [] ys = Some True"
| "std_equal p (x # xs) [] = None"
| "std_equal p (x # xs) (y # ys) = (if p x y then std_equal p xs ys else Some False)"

definition equal_to_vf :: "('e::len, 'f::len) fp list \<Rightarrow> ('e, 'f) fp list \<Rightarrow> bool option" where
  "equal_to_vf lhs rhs =
     (if length lhs \<noteq> length rhs then Some False
      else std_equal equal_to_f lhs rhs)"

definition equal_to_vf_pre :: "('e::len, 'f::len) fp list \<Rightarrow> ('e, 'f) fp list \<Rightarrow> bool option" where
  "equal_to_vf_pre lhs rhs =
     (if length lhs \<noteq> length rhs then Some False
      else std_equal equal_to_f_pre lhs rhs)"

text \<open>
  \<^verbatim>\<open>hash_vf\<close> starts from \<^verbatim>\<open>retval = 0u\<close> and passes every element, in order, to
  \<^verbatim>\<open>boost::hash_combine(retval, el)\<close>. Boost is not part of the repository, so the
  combiner is the parameter \<open>hash_combine\<close>: it maps the accumulator and an element to
  the new accumulator. \<^verbatim>\<open>std::size_t\<close> is a word of \<open>'w\<close> bits.
\<close>

definition hash_vf ::
  "('w::len word \<Rightarrow> ('e::len, 'f::len) fp \<Rightarrow> 'w word) \<Rightarrow> ('e, 'f) fp list \<Rightarrow> 'w word" where
  "hash_vf hash_combine inp = foldl hash_combine 0 inp"

section \<open>Strict weak orderings\<close>

text \<open>
  The precondition of comparison-based algorithms: the relation is irreflexive,
  asymmetric and transitive, and being neither less nor greater is transitive.
\<close>

definition strict_weak_ordering :: "('a \<Rightarrow> 'a \<Rightarrow> bool) \<Rightarrow> bool" where
  "strict_weak_ordering r =
     ((\<forall>x. \<not> r x x) \<and>
      (\<forall>x y. r x y \<longrightarrow> \<not> r y x) \<and>
      (\<forall>x y z. r x y \<longrightarrow> r y z \<longrightarrow> r x z) \<and>
      (\<forall>x y z. \<not> r x y \<and> \<not> r y x \<longrightarrow> \<not> r y z \<and> \<not> r z y \<longrightarrow> \<not> r x z \<and> \<not> r z x))"

text \<open>
  One integer per value that orders all values of a format as \<open>less_than_f\<close> does: the
  order key, with the NaNs beyond every key at the end that \<open>After\<close> selects.
\<close>

definition total_key :: "bool \<Rightarrow> ('e::len, 'f::len) fp \<Rightarrow> int" where
  "total_key After x =
     (if isnan x then
        (if After then 2 ^ (LENGTH('e) + LENGTH('f)) else - (2 ^ (LENGTH('e) + LENGTH('f))))
      else ord_key x)"

section \<open>Element hashes\<close>

text \<open>
  Two combiners to run \<open>hash_vf\<close> with, both for \<^verbatim>\<open>double\<close> and a 64-bit
  \<^verbatim>\<open>std::size_t\<close>. The first hashes an element by the bit pattern of \<^verbatim>\<open>v + 0\<close>, as
  the bit-copying element hash of recent Boost releases does; the second classifies
  the element first and gives every zero, each infinity and every NaN one fixed hash,
  as the \<^verbatim>\<open>fpclassify\<close>-based element hash of older releases does.
\<close>

definition bits_of_double :: "double \<Rightarrow> 64 word" where
  "bits_of_double v =
     (if sign v then push_bit 63 1 else 0) OR push_bit 52 (ucast (expo v)) OR ucast (mant v)"

text \<open>\<^verbatim>\<open>v + 0\<close>: a zero becomes \<open>+0\<close>, a NaN becomes quiet, any other value is unchanged.\<close>

definition plus_zero :: "double \<Rightarrow> double" where
  "plus_zero v =
     (if expo v = 0 \<and> mant v = 0 then Fp False 0 0
      else if isnan v then Fp (sign v) (expo v) (mant v OR push_bit 51 1)
      else v)"

definition hash_mix :: "64 word \<Rightarrow> 64 word" where
  "hash_mix x0 =
     (let m = 0xe9846af9b1a615d;
          x1 = x0 XOR drop_bit 32 x0;
          x2 = x1 * m;
          x3 = x2 XOR drop_bit 32 x2;
          x4 = x3 * m
      in x4 XOR drop_bit 28 x4)"

definition hash_combine_bits :: "64 word \<Rightarrow> double \<Rightarrow> 64 word" where
  "hash_combine_bits seed v = hash_mix (seed + 0x9e3779b9 + bits_of_double (plus_zero v))"

definition float_hash_value :: "double \<Rightarrow> 64 word" where
  "float_hash_value v =
     (if expo v = 0 \<and> mant v = 0 then 0
      else if isinf v then (if sign v then - 2 else - 1)
      else if isnan v then - 3
      else bits_of_double v)"

definition hash_combine_classify :: "64 word \<Rightarrow> double \<Rightarrow> 64 word" where
  "hash_combine_classify seed v =
     seed XOR (float_hash_value v + 0x9e3779b9 + push_bit 6 seed + drop_bit 2 seed)"

text \<open>A combiner keeps \<open>hash_vf\<close> in step with the equality when equal elements combine alike.\<close>

definition respects_equal_to_f ::
  "('w::len word \<Rightarrow> ('e::len, 'f::len) fp \<Rightarrow> 'w word) \<Rightarrow> bool" where
  "respects_equal_to_f hash_combine =
     (\<forall>seed a b. equal_to_f a b \<longrightarrow> hash_combine seed a = hash_combine seed b)"

section \<open>The compile-time constraint\<close>

text \<open>
  Each function states \<^verbatim>\<open>static_assert(std::is_floating_point<T>...)\<close> somewhere in its
  body. Instantiating a function with a type \<^verbatim>\<open>T\<close> reports the message of the assertion
  that fails, or nothing when no assertion of the text that is compiled fails. Which
  text is compiled depends on \<^verbatim>\<open>__cpp_impl_three_way_comparison\<close>.
\<close>

datatype scalar_type = T_float | T_double | T_long_double | T_int

fun is_floating_point :: "scalar_type \<Rightarrow> bool" where
  "is_floating_point T_float = True"
| "is_floating_point T_double = True"
| "is_floating_point T_long_double = True"
| "is_floating_point T_int = False"

datatype language_level = Three_way_comparison | Pre_cpp20

definition less_than_f_static_assert :: "language_level \<Rightarrow> scalar_type \<Rightarrow> string option" where
  "less_than_f_static_assert lvl T =
     (if is_floating_point T then None
      else Some ''less_than_f can be used only with floating-point types.'')"

definition greater_than_f_static_assert :: "language_level \<Rightarrow> scalar_type \<Rightarrow> string option" where
  "greater_than_f_static_assert lvl T =
     (if is_floating_point T then None
      else Some ''greater_than_f can be used only with floating-point types.'')"

definition equal_to_f_static_assert :: "language_level \<Rightarrow> scalar_type \<Rightarrow> string option" where
  "equal_to_f_static_assert lvl T =
     (case lvl of
        Three_way_comparison \<Rightarrow> None
      | Pre_cpp20 \<Rightarrow>
          (if is_floating_point T then None
           else Some ''equal_to_f can be used only with floating-point types.''))"

definition equal_to_vf_static_assert :: "language_level \<Rightarrow> scalar_type \<Rightarrow> string option" where
  "equal_to_vf_static_assert lvl T =
     (if is_floating_point T then None
      else Some ''This class (equal_to_vf) can be used only with floating-point types.'')"

definition hash_vf_static_assert :: "language_level \<Rightarrow> scalar_type \<Rightarrow> string option" where
  "hash_vf_static_assert lvl T =
     (if is_floating_point T then None
      else Some ''This class (hash_vf) can be used only with floating-point types.'')"

section \<open>The number a bit pattern denotes\<close>

text \<open>
  A finite value with exponent field \<open>e\<close> and fraction \<open>f\<close> denotes
  \<open>\<plusminus> 2 ^ (e - bias) * (1 + f / 2 ^ w)\<close>, or \<open>\<plusminus> 2 ^ (1 - bias) * (f / 2 ^ w)\<close> when \<open>e = 0\<close>,
  with \<open>w\<close> the width of the fraction.
\<close>

definition bias :: "('e::len, 'f::len) fp \<Rightarrow> nat" where
  "bias x = 2 ^ (LENGTH('e) - 1) - 1"

definition valof :: "('e::len, 'f::len) fp \<Rightarrow> real" where
  "valof x =
     (if sign x then - 1 else 1) *
     (if expo x = 0 then (2 / 2 ^ bias x) * (real (unat (mant x)) / 2 ^ LENGTH('f))
      else (2 ^ unat (expo x) / 2 ^ bias x) * (1 + real (unat (mant x)) / 2 ^ LENGTH('f)))"

text \<open>
  Scaled by \<open>2 ^ bias * 2 ^ w\<close> the number is an integer; \<open>scaled_mag\<close> is its magnitude.
\<close>

definition scaled_mag :: "('e::len, 'f::len) fp \<Rightarrow> nat" where
  "scaled_mag x =
     (if expo x = 0 then 2 * unat (mant x)
      else 2 ^ unat (expo x) * (2 ^ LENGTH('f) + unat (mant x)))"

definition scaled_val :: "('e::len, 'f::len) fp \<Rightarrow> int" where
  "scaled_val x = (if sign x then - int (scaled_mag x) else int (scaled_mag x))"

section \<open>Some values of \<^verbatim>\<open>double\<close>\<close>

definition dbl_one :: double where "dbl_one = Fp False 1023 0"
definition dbl_two :: double where "dbl_two = Fp False 1024 0"
definition dbl_three :: double where "dbl_three = Fp False 1024 (2 ^ 51)"
definition dbl_minus_one :: double where "dbl_minus_one = Fp True 1023 0"
definition dbl_pos_zero :: double where "dbl_pos_zero = Fp False 0 0"
definition dbl_neg_zero :: double where "dbl_neg_zero = Fp True 0 0"
definition dbl_pos_inf :: double where "dbl_pos_inf = Fp False 2047 0"
definition dbl_neg_inf :: double where "dbl_neg_inf = Fp True 2047 0"
definition dbl_nan :: double where "dbl_nan = Fp False 2047 (2 ^ 51)"
definition dbl_nan_payload :: double where "dbl_nan_payload = Fp True 2047 (2 ^ 51 + 1)"

lemmas dbl_defs = dbl_one_def dbl_two_def dbl_three_def dbl_minus_one_def dbl_pos_zero_def
  dbl_neg_zero_def dbl_pos_inf_def dbl_neg_inf_def dbl_nan_def dbl_nan_payload_def

section \<open>The two bodies of each function agree\<close>

lemma three_way_cases:
  "three_way a b = Less \<longleftrightarrow> fp_lt a b"
  "three_way a b = Greater \<longleftrightarrow> fp_gt a b"
  "three_way a b = Equivalent \<longleftrightarrow> fp_eq a b"
  "three_way a b = Unordered \<longleftrightarrow> isnan a \<or> isnan b"
  by (auto simp: three_way_def fp_lt_def fp_gt_def fp_eq_def)

lemma less_than_f_alt:
  "less_than_f After a b =
     (if isnan a then \<not> isnan b \<and> \<not> After
      else if isnan b then After else ord_key a < ord_key b)"
  by (auto simp: less_than_f_def Let_def three_way_cases fp_lt_def fp_gt_def fp_eq_def)

lemma greater_than_f_alt:
  "greater_than_f After a b =
     (if isnan a then \<not> isnan b \<and> After
      else if isnan b then \<not> After else ord_key b < ord_key a)"
  by (auto simp: greater_than_f_def Let_def three_way_cases fp_lt_def fp_gt_def fp_eq_def)

lemma equal_to_f_alt:
  "equal_to_f a b =
     (if isnan a then isnan b
      else \<not> isnan b \<and> ord_key a = ord_key b)"
  by (auto simp: equal_to_f_def Let_def three_way_cases fp_lt_def fp_gt_def fp_eq_def)

lemma less_than_f_pre_eq: "less_than_f_pre After a b = less_than_f After a b"
  by (auto simp: less_than_f_pre_def less_than_f_alt fp_lt_def)

lemma greater_than_f_pre_eq: "greater_than_f_pre After a b = greater_than_f After a b"
  by (auto simp: greater_than_f_pre_def greater_than_f_alt fp_gt_def)

lemma equal_to_f_pre_eq: "equal_to_f_pre a b = equal_to_f a b"
  by (auto simp: equal_to_f_pre_def equal_to_f_alt fp_eq_def)

lemma equal_to_vf_pre_eq: "equal_to_vf_pre lhs rhs = equal_to_vf lhs rhs"
proof -
  have "equal_to_f_pre = (equal_to_f :: ('a, 'b) fp \<Rightarrow> ('a, 'b) fp \<Rightarrow> bool)"
    by (intro ext) (rule equal_to_f_pre_eq)
  then show ?thesis
    by (simp add: equal_to_vf_pre_def equal_to_vf_def)
qed

lemma less_than_f_pre_fun: "less_than_f_pre After = less_than_f After"
  by (intro ext) (rule less_than_f_pre_eq)

lemma greater_than_f_pre_fun: "greater_than_f_pre After = greater_than_f After"
  by (intro ext) (rule greater_than_f_pre_eq)

lemma equal_to_f_pre_fun: "equal_to_f_pre = equal_to_f"
  by (intro ext) (rule equal_to_f_pre_eq)

section \<open>The order key\<close>

lemma mag_inject:
  fixes a b :: "('e::len, 'f::len) fp"
  assumes "mag a = mag b"
  shows "expo a = expo b \<and> mant a = mant b"
proof -
  let ?F = "2 ^ LENGTH('f) :: nat"
  have fa: "unat (mant a) < ?F" and fb: "unat (mant b) < ?F"
    by (rule unsigned_less)+
  from assms have eq: "unat (expo a) * ?F + unat (mant a) = unat (expo b) * ?F + unat (mant b)"
    by (simp add: mag_def)
  have "(unat (expo a) * ?F + unat (mant a)) div ?F = unat (expo a)"
    using fa by simp
  moreover have "(unat (expo b) * ?F + unat (mant b)) div ?F = unat (expo b)"
    using fb by simp
  ultimately have e: "unat (expo a) = unat (expo b)"
    using eq by simp
  with eq have "unat (mant a) = unat (mant b)"
    by simp
  with e show ?thesis
    by (simp add: word_unat_eq_iff)
qed

lemma mag_zero:
  fixes a :: "('e::len, 'f::len) fp"
  shows "mag a = 0 \<longleftrightarrow> expo a = 0 \<and> mant a = 0"
  by (auto simp: mag_def unat_eq_0)

lemma ord_key_eq:
  fixes a b :: "('e::len, 'f::len) fp"
  shows "ord_key a = ord_key b \<longleftrightarrow>
           a = b \<or> (expo a = 0 \<and> mant a = 0 \<and> expo b = 0 \<and> mant b = 0)"
proof
  assume k: "ord_key a = ord_key b"
  show "a = b \<or> (expo a = 0 \<and> mant a = 0 \<and> expo b = 0 \<and> mant b = 0)"
  proof (cases "sign a = sign b")
    case True
    with k have "mag a = mag b"
      by (simp add: ord_key_def split: if_splits)
    then have "expo a = expo b \<and> mant a = mant b"
      by (rule mag_inject)
    with True show ?thesis
      by (simp add: fp_fields.expand)
  next
    case False
    with k have "mag a = 0 \<and> mag b = 0"
      by (auto simp: ord_key_def split: if_splits)
    then show ?thesis
      by (simp add: mag_zero)
  qed
next
  assume "a = b \<or> (expo a = 0 \<and> mant a = 0 \<and> expo b = 0 \<and> mant b = 0)"
  then show "ord_key a = ord_key b"
    by (auto simp: ord_key_def mag_def)
qed

lemma scaled_mag_zero:
  fixes a :: "('e::len, 'f::len) fp"
  shows "scaled_mag a = 0 \<longleftrightarrow> expo a = 0 \<and> mant a = 0"
  by (auto simp: scaled_mag_def unat_eq_0)

lemma scaled_mag_mono:
  fixes a b :: "('e::len, 'f::len) fp"
  assumes "mag a < mag b"
  shows "scaled_mag a < scaled_mag b"
proof -
  define F :: nat where "F = 2 ^ LENGTH('f)"
  define ea eb fa fb where "ea = unat (expo a)" and "eb = unat (expo b)"
    and "fa = unat (mant a)" and "fb = unat (mant b)"
  have fa: "fa < F" and fb: "fb < F"
    unfolding fa_def fb_def F_def by (rule unsigned_less)+
  have za: "expo a = 0 \<longleftrightarrow> ea = 0" and zb: "expo b = 0 \<longleftrightarrow> eb = 0"
    by (simp_all add: ea_def eb_def unat_eq_0)
  have sa: "scaled_mag a = (if ea = 0 then 2 * fa else 2 ^ ea * (F + fa))"
    and sb: "scaled_mag b = (if eb = 0 then 2 * fb else 2 ^ eb * (F + fb))"
    by (simp_all add: scaled_mag_def za zb ea_def eb_def fa_def fb_def F_def)
  from assms have lt: "ea * F + fa < eb * F + fb"
    by (simp add: mag_def ea_def eb_def fa_def fb_def F_def)
  have le: "ea \<le> eb"
  proof (rule ccontr)
    assume "\<not> ea \<le> eb"
    then have "Suc eb \<le> ea" by simp
    then have "Suc eb * F \<le> ea * F" by (rule mult_le_mono1)
    with fb lt show False by simp
  qed
  show ?thesis
  proof (cases "ea = eb")
    case True
    with lt have "fa < fb" by simp
    with True show ?thesis
      by (simp add: sa sb)
  next
    case False
    with le have less: "ea < eb" by simp
    have up: "2 ^ Suc ea * F \<le> 2 ^ eb * (F + fb)"
    proof -
      from less have "(2 :: nat) ^ Suc ea \<le> 2 ^ eb"
        by (intro power_increasing) simp_all
      then show ?thesis
        by (intro mult_le_mono) simp_all
    qed
    show ?thesis
    proof (cases "ea = 0")
      case True
      have "2 * fa < 2 ^ Suc ea * F"
        using fa True by simp
      with up True less show ?thesis
        by (simp add: sa sb)
    next
      case False
      have "2 ^ ea * (F + fa) < 2 ^ ea * (F + F)"
        using fa by simp
      also have "\<dots> = 2 ^ Suc ea * F"
        by simp
      finally have "2 ^ ea * (F + fa) < 2 ^ Suc ea * F" .
      from this up have "2 ^ ea * (F + fa) < 2 ^ eb * (F + fb)"
        by (rule less_le_trans)
      with False less show ?thesis
        by (simp add: sa sb)
    qed
  qed
qed

lemma scaled_mag_less_iff:
  fixes a b :: "('e::len, 'f::len) fp"
  shows "scaled_mag a < scaled_mag b \<longleftrightarrow> mag a < mag b"
proof (cases "mag a" "mag b" rule: linorder_cases)
  case less
  then show ?thesis using scaled_mag_mono [of a b] by simp
next
  case equal
  then have "expo a = expo b \<and> mant a = mant b" by (rule mag_inject)
  then have "scaled_mag a = scaled_mag b" by (simp add: scaled_mag_def)
  with equal show ?thesis by simp
next
  case greater
  then show ?thesis using scaled_mag_mono [of b a] by simp
qed

lemma scaled_val_less_iff:
  fixes a b :: "('e::len, 'f::len) fp"
  shows "scaled_val a < scaled_val b \<longleftrightarrow> ord_key a < ord_key b"
proof -
  have z: "scaled_mag x = 0 \<longleftrightarrow> mag x = 0" for x :: "('e, 'f) fp"
    by (simp add: scaled_mag_zero mag_zero)
  have "0 < scaled_mag a \<or> 0 < scaled_mag b \<longleftrightarrow> 0 < mag a \<or> 0 < mag b"
    using z [of a] z [of b] by auto
  then show ?thesis
    using scaled_mag_less_iff [of a b] scaled_mag_less_iff [of b a]
    by (auto simp: scaled_val_def ord_key_def)
qed

lemma valof_scaled:
  fixes x :: "('e::len, 'f::len) fp"
  shows "valof x = real_of_int (scaled_val x) / (2 ^ bias x * 2 ^ LENGTH('f))"
  by (simp add: valof_def scaled_val_def scaled_mag_def field_simps)

text \<open>
  The key orders the bit patterns of a format as the numbers they denote. The formula
  gives the infinities a number beyond every finite value, so the statement covers them.
\<close>

lemma ord_key_valof:
  fixes a b :: "('e::len, 'f::len) fp"
  shows "valof a < valof b \<longleftrightarrow> ord_key a < ord_key b"
proof -
  have "bias a = bias b"
    by (simp add: bias_def)
  then have "valof a < valof b \<longleftrightarrow> real_of_int (scaled_val a) < real_of_int (scaled_val b)"
    by (simp add: valof_scaled divide_less_cancel mult_less_0_iff)
  then show ?thesis
    by (simp add: scaled_val_less_iff)
qed

lemma ord_key_valof_eq:
  fixes a b :: "('e::len, 'f::len) fp"
  shows "valof a = valof b \<longleftrightarrow> ord_key a = ord_key b"
  using ord_key_valof [of a b] ord_key_valof [of b a] by auto

lemma native_comparisons_valof:
  fixes a b :: "('e::len, 'f::len) fp"
  assumes "\<not> isnan a" and "\<not> isnan b"
  shows "fp_lt a b \<longleftrightarrow> valof a < valof b"
    and "fp_gt a b \<longleftrightarrow> valof a > valof b"
    and "fp_eq a b \<longleftrightarrow> valof a = valof b"
  using assms by (simp_all add: fp_lt_def fp_gt_def fp_eq_def ord_key_valof ord_key_valof_eq)

section \<open>Values for the examples\<close>

lemma dbl_isnan [simp]:
  "isnan dbl_nan" "isnan dbl_nan_payload"
  "\<not> isnan dbl_one" "\<not> isnan dbl_two" "\<not> isnan dbl_three" "\<not> isnan dbl_minus_one"
  "\<not> isnan dbl_pos_zero" "\<not> isnan dbl_neg_zero" "\<not> isnan dbl_pos_inf" "\<not> isnan dbl_neg_inf"
  by (simp_all add: isnan_def dbl_defs)

lemma dbl_ord_key [simp]:
  "ord_key dbl_one = 1023 * 2 ^ 52"
  "ord_key dbl_two = 1024 * 2 ^ 52"
  "ord_key dbl_three = 1024 * 2 ^ 52 + 2 ^ 51"
  "ord_key dbl_minus_one = - (1023 * 2 ^ 52)"
  "ord_key dbl_pos_zero = 0"
  "ord_key dbl_neg_zero = 0"
  "ord_key dbl_pos_inf = 2047 * 2 ^ 52"
  "ord_key dbl_neg_inf = - (2047 * 2 ^ 52)"
  by (simp_all add: ord_key_def mag_def dbl_defs)

lemma valof_examples:
  "valof dbl_one = 1" "valof dbl_two = 2" "valof dbl_three = 3" "valof dbl_minus_one = - 1"
  "valof dbl_pos_zero = 0" "valof dbl_neg_zero = 0"
  by (simp_all add: valof_def bias_def dbl_defs)

section \<open>The vector functors\<close>

lemma std_equal_same_length:
  "length xs = length ys \<Longrightarrow> std_equal p xs ys = Some (\<forall>i<length xs. p (xs ! i) (ys ! i))"
proof (induction p xs ys rule: std_equal.induct)
  case (1 p ys)
  then show ?case by simp
next
  case (2 p x xs)
  then show ?case by simp
next
  case (3 p x xs y ys)
  then show ?case
    by (auto simp: less_Suc_eq_0_disj)
qed

lemma std_equal_list_all2:
  "length xs = length ys \<Longrightarrow> std_equal p xs ys = Some (list_all2 p xs ys)"
  by (simp add: std_equal_same_length list_all2_conv_all_nth)

lemma equal_to_vf_list_all2:
  "equal_to_vf lhs rhs = Some (list_all2 equal_to_f lhs rhs)"
  by (auto simp: equal_to_vf_def std_equal_list_all2 dest: list_all2_lengthD)

text \<open>The size check keeps \<^verbatim>\<open>std::equal\<close> inside the second vector.\<close>

lemma equal_to_vf_defined: "equal_to_vf lhs rhs \<noteq> None"
  by (simp add: equal_to_vf_list_all2)

lemma foldl_respects:
  assumes "\<And>s a b. p a b \<Longrightarrow> hc s a = hc s b" and "list_all2 p xs ys"
  shows "foldl hc s xs = foldl hc s ys"
  using assms(2)
proof (induction xs ys arbitrary: s rule: list_all2_induct)
  case Nil
  then show ?case by simp
next
  case (Cons x xs y ys)
  then show ?case
    using assms(1) [of x y s] by simp
qed

lemma float_hash_value_respects:
  assumes "equal_to_f a b"
  shows "float_hash_value a = float_hash_value b"
proof (cases "isnan a")
  case True
  with assms have "isnan b" by (simp add: equal_to_f_alt)
  with True show ?thesis
    by (auto simp: float_hash_value_def isnan_def isinf_def)
next
  case False
  with assms have "\<not> isnan b" and "ord_key a = ord_key b"
    by (simp_all add: equal_to_f_alt)
  then have "a = b \<or> (expo a = 0 \<and> mant a = 0 \<and> expo b = 0 \<and> mant b = 0)"
    by (simp add: ord_key_eq)
  then show ?thesis
    by (auto simp: float_hash_value_def)
qed

lemma hash_combine_classify_respects: "respects_equal_to_f hash_combine_classify"
  by (simp add: respects_equal_to_f_def hash_combine_classify_def float_hash_value_respects)

lemma bits_of_plus_zero_nan:
  "bits_of_double (plus_zero dbl_nan) = 0x7FF8000000000000"
  "bits_of_double (plus_zero dbl_nan_payload) = 0xFFF8000000000001"
  by (simp_all add: bits_of_double_def plus_zero_def dbl_defs isnan_def)

section \<open>Order properties\<close>

lemma less_than_f_swo: "strict_weak_ordering (less_than_f After)"
  unfolding strict_weak_ordering_def
proof (intro conjI allI impI)
  fix x y z :: "('a, 'b) fp"
  show "\<not> less_than_f After x x"
    by (simp add: less_than_f_alt)
  show "\<not> less_than_f After y x" if "less_than_f After x y"
    using that by (auto simp: less_than_f_alt split: if_splits)
  show "less_than_f After x z" if "less_than_f After x y" "less_than_f After y z"
    using that by (auto simp: less_than_f_alt split: if_splits)
  show "\<not> less_than_f After x z"
    if "\<not> less_than_f After x y \<and> \<not> less_than_f After y x"
      "\<not> less_than_f After y z \<and> \<not> less_than_f After z y"
    using that by (auto simp: less_than_f_alt split: if_splits)
  show "\<not> less_than_f After z x"
    if "\<not> less_than_f After x y \<and> \<not> less_than_f After y x"
      "\<not> less_than_f After y z \<and> \<not> less_than_f After z y"
    using that by (auto simp: less_than_f_alt split: if_splits)
qed

lemma greater_than_f_converse: "greater_than_f After a b = less_than_f After b a"
  by (auto simp: greater_than_f_alt less_than_f_alt)

lemma strict_weak_ordering_converse:
  "strict_weak_ordering r \<Longrightarrow> strict_weak_ordering (\<lambda>a b. r b a)"
  unfolding strict_weak_ordering_def by blast

lemma greater_than_f_swo: "strict_weak_ordering (greater_than_f After)"
proof -
  have "greater_than_f After = (\<lambda>a b :: ('a, 'b) fp. less_than_f After b a)"
    by (intro ext) (rule greater_than_f_converse)
  then show ?thesis
    using strict_weak_ordering_converse [OF less_than_f_swo [of After]] by simp
qed

text \<open>
  Two arrangements of the same elements, one in order for \<open>less_than_f\<close> and one in order
  for \<open>greater_than_f\<close>, are reverses of each other, element by element up to \<open>equal_to_f\<close>.
\<close>

lemma mag_bound:
  fixes x :: "('e::len, 'f::len) fp"
  shows "mag x < 2 ^ (LENGTH('e) + LENGTH('f))"
proof -
  define F :: nat where "F = 2 ^ LENGTH('f)"
  define E :: nat where "E = 2 ^ LENGTH('e)"
  define e m where "e = unat (expo x)" and "m = unat (mant x)"
  have e: "e < E" and m: "m < F"
    unfolding e_def m_def E_def F_def by (rule unsigned_less)+
  from e have "Suc e \<le> E" by simp
  then have "Suc e * F \<le> E * F" by (rule mult_le_mono1)
  with m have "e * F + m < E * F" by simp
  then show ?thesis
    by (simp add: mag_def e_def m_def E_def F_def power_add)
qed

lemma ord_key_bounds:
  fixes x :: "('e::len, 'f::len) fp"
  shows "ord_key x < 2 ^ (LENGTH('e) + LENGTH('f))"
    and "- (2 ^ (LENGTH('e) + LENGTH('f))) < ord_key x"
proof -
  define B :: int where "B = 2 ^ (LENGTH('e) + LENGTH('f))"
  have "int (mag x) < int (2 ^ (LENGTH('e) + LENGTH('f)))"
    using mag_bound [of x] by (simp only: of_nat_less_iff)
  then have "int (mag x) < B"
    by (simp add: B_def)
  then have "ord_key x < B" and "- B < ord_key x"
    by (simp_all add: ord_key_def)
  then show "ord_key x < 2 ^ (LENGTH('e) + LENGTH('f))"
    and "- (2 ^ (LENGTH('e) + LENGTH('f))) < ord_key x"
    by (simp_all add: B_def)
qed

lemma less_than_f_total_key:
  "less_than_f After a b \<longleftrightarrow> total_key After a < total_key After b"
  using ord_key_bounds [of a] ord_key_bounds [of b]
  by (auto simp: less_than_f_alt total_key_def)

lemma equal_to_f_total_key:
  "equal_to_f a b \<longleftrightarrow> total_key After a = total_key After b"
  using ord_key_bounds [of a] ord_key_bounds [of b]
  by (auto simp: equal_to_f_alt total_key_def)

lemma sorted_less_than_f_key:
  "sorted_wrt (\<lambda>p q. \<not> less_than_f After q p) xs \<longleftrightarrow> sorted (map (total_key After) xs)"
  by (simp add: sorted_wrt_map less_than_f_total_key not_less)

lemma map_eq_list_all2:
  "map f xs = map f ys \<Longrightarrow> list_all2 (\<lambda>a b. f a = f b) xs ys"
proof (induction xs arbitrary: ys)
  case Nil
  then show ?case by simp
next
  case (Cons x xs)
  then show ?case by (cases ys) auto
qed

lemma sorted_arrangements_equal:
  assumes "mset ys = mset zs"
    and "sorted_wrt (\<lambda>p q. \<not> less_than_f After q p) ys"
    and "sorted_wrt (\<lambda>p q. \<not> less_than_f After q p) zs"
  shows "list_all2 equal_to_f ys zs"
proof -
  let ?k = "total_key After"
  have "mset (map ?k ys) = mset (map ?k zs)"
    using assms(1) by simp
  moreover have "sorted (map ?k ys)" and "sorted (map ?k zs)"
    using assms(2,3) by (simp_all add: sorted_less_than_f_key)
  ultimately have "map ?k ys = map ?k zs"
    by (metis properties_for_sort)
  then have "list_all2 (\<lambda>a b. ?k a = ?k b) ys zs"
    by (rule map_eq_list_all2)
  then show ?thesis
    by (rule list_all2_mono) (simp add: equal_to_f_total_key [of _ _ After])
qed

lemma sorted_greater_than_f_rev:
  "sorted_wrt (\<lambda>p q. \<not> greater_than_f After q p) zs \<longleftrightarrow>
   sorted_wrt (\<lambda>p q. \<not> less_than_f After q p) (rev zs)"
  by (simp add: greater_than_f_converse sorted_wrt_rev)

lemma sorts_reversed:
  assumes "mset ys = mset zs"
    and "sorted_wrt (\<lambda>p q. \<not> less_than_f After q p) ys"
    and "sorted_wrt (\<lambda>p q. \<not> greater_than_f After q p) zs"
  shows "list_all2 equal_to_f zs (rev ys)"
proof -
  have "list_all2 equal_to_f ys (rev zs)"
    using assms by (intro sorted_arrangements_equal [of _ _ After]) (simp_all add: sorted_greater_than_f_rev)
  then have "list_all2 equal_to_f (rev ys) (rev (rev zs))"
    by (simp only: list_all2_rev)
  then have "list_all2 equal_to_f (rev ys) zs"
    by simp
  moreover have "equal_to_f a b \<Longrightarrow> equal_to_f b a" for a b :: "('a, 'b) fp"
    by (auto simp: equal_to_f_alt split: if_splits)
  ultimately show ?thesis
    by (auto simp: list_all2_conv_all_nth)
qed

section \<open>Claims\<close>

text \<open>
  C1, as amended. \<^verbatim>\<open>hash_vf\<close> canonicalises nothing itself: it hands every element to
  \<^verbatim>\<open>boost::hash_combine\<close>. When the combiner gives the same result for any two elements
  that \<open>equal_to_f\<close> identifies, two vectors that \<open>equal_to_vf\<close> calls equal have the same
  \<open>hash_vf\<close>. This holds for every format, every accumulator width and every such combiner.
\<close>

theorem hash_vf_consistent:
  "respects_equal_to_f hash_combine \<Longrightarrow> equal_to_vf v1 v2 = Some True \<Longrightarrow>
   hash_vf hash_combine v1 = hash_vf hash_combine v2"
  unfolding hash_vf_def
  by (rule foldl_respects [where p = equal_to_f])
     (simp_all add: respects_equal_to_f_def equal_to_vf_list_all2)

theorem hash_vf_consistent_witness:
  "equal_to_vf [dbl_one, dbl_nan, dbl_neg_zero] [dbl_one, dbl_nan_payload, dbl_pos_zero] = Some True \<and>
   hash_vf hash_combine_classify [dbl_one, dbl_nan, dbl_neg_zero] =
   hash_vf hash_combine_classify [dbl_one, dbl_nan_payload, dbl_pos_zero]"
proof -
  have e: "equal_to_vf [dbl_one, dbl_nan, dbl_neg_zero] [dbl_one, dbl_nan_payload, dbl_pos_zero] = Some True"
    by (simp add: equal_to_vf_def equal_to_f_alt)
  from hash_vf_consistent [OF hash_combine_classify_respects e] e show ?thesis
    by simp
qed

text \<open>
  C1 as stated asks for equal hashes whatever the element hash does. With a combiner
  that hashes the bit pattern, two one-element vectors holding NaNs of different
  payloads are equal for \<open>equal_to_vf\<close> and hash differently.
\<close>

theorem hash_vf_nan_payload_counterexample:
  "equal_to_vf [dbl_nan] [dbl_nan_payload] = Some True \<and>
   hash_vf hash_combine_bits [dbl_nan] \<noteq> hash_vf hash_combine_bits [dbl_nan_payload]"
proof -
  have "equal_to_vf [dbl_nan] [dbl_nan_payload] = Some True"
    by (simp add: equal_to_vf_def equal_to_f_alt)
  moreover
  have "hash_vf hash_combine_bits [dbl_nan] \<noteq> hash_vf hash_combine_bits [dbl_nan_payload]"
    by (simp add: hash_vf_def hash_combine_bits_def hash_mix_def bits_of_plus_zero_nan Let_def)
  ultimately show ?thesis
    by simp
qed

text \<open>
  C2. For \<^verbatim>\<open>less_than_f<T, After>\<close>: when \<open>x\<close> is not NaN and \<open>n\<close> is NaN,
  \<open>less_than_f(x, n)\<close> is \<open>After\<close> and \<open>less_than_f(n, x)\<close> is \<open>\<not> After\<close>; when both
  operands are NaN the result is false. Both bodies of the function behave so.
\<close>

theorem less_than_f_nan_placement:
  "(\<not> isnan x \<and> isnan n \<longrightarrow>
      less_than_f After x n = After \<and> less_than_f After n x = (\<not> After) \<and>
      less_than_f_pre After x n = After \<and> less_than_f_pre After n x = (\<not> After)) \<and>
   (isnan n \<and> isnan m \<longrightarrow>
      \<not> less_than_f After n m \<and> \<not> less_than_f_pre After n m)"
  by (simp add: less_than_f_pre_eq less_than_f_alt)

theorem less_than_f_nan_placement_witness:
  "\<not> isnan dbl_one \<and> isnan dbl_nan \<and> isnan dbl_nan_payload \<and>
   less_than_f True dbl_one dbl_nan \<and> \<not> less_than_f True dbl_nan dbl_one \<and>
   \<not> less_than_f False dbl_one dbl_nan \<and> less_than_f False dbl_nan dbl_one \<and>
   less_than_f_pre True dbl_one dbl_nan \<and> \<not> less_than_f_pre True dbl_nan dbl_one \<and>
   \<not> less_than_f True dbl_nan dbl_nan_payload \<and> \<not> less_than_f_pre False dbl_nan dbl_nan_payload"
  using less_than_f_nan_placement [of dbl_one dbl_nan True dbl_nan_payload]
    less_than_f_nan_placement [of dbl_one dbl_nan False dbl_nan_payload]
  by simp

text \<open>
  C3. \<open>equal_to_f(a, b)\<close> is true exactly when \<open>a\<close> equals \<open>b\<close> under the native
  equality or both are NaN, in both bodies of the function. The instances below:
  NaN equals NaN whatever the payloads, NaN differs from \<open>1.0\<close>, and \<open>+0.0\<close> equals \<open>-0.0\<close>.
\<close>

theorem equal_to_f_iff:
  "equal_to_f a b = (fp_eq a b \<or> (isnan a \<and> isnan b)) \<and>
   equal_to_f_pre a b = (fp_eq a b \<or> (isnan a \<and> isnan b))"
  by (auto simp: equal_to_f_pre_eq equal_to_f_alt fp_eq_def)

theorem equal_to_f_iff_witness:
  "equal_to_f dbl_nan dbl_nan \<and> equal_to_f dbl_nan dbl_nan_payload \<and>
   \<not> equal_to_f dbl_nan dbl_one \<and> \<not> equal_to_f dbl_one dbl_nan \<and>
   equal_to_f dbl_pos_zero dbl_neg_zero \<and> \<not> equal_to_f dbl_one dbl_two \<and>
   equal_to_f_pre dbl_nan dbl_nan \<and> \<not> equal_to_f_pre dbl_nan dbl_one \<and>
   equal_to_f_pre dbl_pos_zero dbl_neg_zero"
  using equal_to_f_iff [of dbl_nan dbl_nan] equal_to_f_iff [of dbl_nan dbl_nan_payload]
    equal_to_f_iff [of dbl_nan dbl_one] equal_to_f_iff [of dbl_one dbl_nan]
    equal_to_f_iff [of dbl_pos_zero dbl_neg_zero] equal_to_f_iff [of dbl_one dbl_two]
  by (simp add: fp_eq_def)

text \<open>
  C4. \<open>equal_to_vf\<close> returns false when the lengths differ, whatever the elements are;
  when the lengths agree it returns true exactly when \<open>equal_to_f\<close> holds at every index.
  In either case it returns: \<^verbatim>\<open>std::equal\<close> never reads past the second vector.
\<close>

theorem equal_to_vf_elementwise:
  "(length lhs \<noteq> length rhs \<longrightarrow>
      equal_to_vf lhs rhs = Some False \<and> equal_to_vf_pre lhs rhs = Some False) \<and>
   (length lhs = length rhs \<longrightarrow>
      equal_to_vf lhs rhs = Some (\<forall>i<length lhs. equal_to_f (lhs ! i) (rhs ! i)) \<and>
      equal_to_vf_pre lhs rhs = Some (\<forall>i<length lhs. equal_to_f (lhs ! i) (rhs ! i)))"
  by (simp add: equal_to_vf_pre_eq equal_to_vf_def std_equal_same_length)

theorem equal_to_vf_elementwise_witness:
  "equal_to_vf [dbl_one, dbl_two] [dbl_one, dbl_two, dbl_three] = Some False \<and>
   equal_to_vf [dbl_one, dbl_two] [dbl_two, dbl_one] = Some False \<and>
   equal_to_vf [dbl_one, dbl_nan] [dbl_one, dbl_nan_payload] = Some True \<and>
   equal_to_vf_pre [dbl_one, dbl_nan] [dbl_one, dbl_nan_payload] = Some True"
  using equal_to_vf_elementwise [of "[dbl_one, dbl_two]" "[dbl_one, dbl_two, dbl_three]"]
    equal_to_vf_elementwise [of "[dbl_one, dbl_two]" "[dbl_two, dbl_one]"]
    equal_to_vf_elementwise [of "[dbl_one, dbl_nan]" "[dbl_one, dbl_nan_payload]"]
  by (simp add: All_less_Suc equal_to_f_alt)

text \<open>
  C5. For each value of \<open>After\<close>, \<open>less_than_f\<close> and \<open>greater_than_f\<close> are strict weak
  orderings over all values of the format, NaNs included: irreflexive, asymmetric,
  transitive, with a transitive relation of being neither less nor greater.
\<close>

theorem comparisons_strict_weak_ordering:
  "strict_weak_ordering (less_than_f After) \<and>
   strict_weak_ordering (greater_than_f After) \<and>
   strict_weak_ordering (less_than_f_pre After) \<and>
   strict_weak_ordering (greater_than_f_pre After)"
  by (simp add: less_than_f_pre_fun greater_than_f_pre_fun less_than_f_swo greater_than_f_swo)

theorem comparisons_strict_weak_ordering_witness:
  "\<not> less_than_f True dbl_nan dbl_nan \<and> \<not> greater_than_f True dbl_nan dbl_nan \<and>
   \<not> less_than_f True dbl_one dbl_one \<and> \<not> greater_than_f False dbl_one dbl_one \<and>
   less_than_f True dbl_one dbl_pos_inf \<and> less_than_f True dbl_pos_inf dbl_nan \<and>
   less_than_f True dbl_one dbl_nan \<and> \<not> less_than_f True dbl_nan dbl_one \<and>
   greater_than_f_pre False dbl_one dbl_neg_inf \<and> greater_than_f_pre False dbl_neg_inf dbl_nan \<and>
   greater_than_f_pre False dbl_one dbl_nan \<and> \<not> greater_than_f_pre False dbl_nan dbl_one"
proof -
  have lt: "less_than_f True dbl_one dbl_pos_inf" "less_than_f True dbl_pos_inf dbl_nan"
    by (simp_all add: less_than_f_alt)
  have gt: "greater_than_f_pre False dbl_one dbl_neg_inf"
    "greater_than_f_pre False dbl_neg_inf dbl_nan"
    by (simp_all add: greater_than_f_pre_eq greater_than_f_alt)
  note swo = comparisons_strict_weak_ordering [unfolded strict_weak_ordering_def]
  note swo_lt = swo [of True, THEN conjunct1]
  note swo_gt = swo [of True, THEN conjunct2, THEN conjunct1]
  note swo_gt' = swo [of False, THEN conjunct2, THEN conjunct1]
  note swo_gtp = swo [of False, THEN conjunct2, THEN conjunct2, THEN conjunct2]
  have "\<not> less_than_f True dbl_nan dbl_nan" "\<not> less_than_f True dbl_one dbl_one"
    using swo_lt by blast+
  moreover have "\<not> greater_than_f True dbl_nan dbl_nan"
    using swo_gt by blast
  moreover have "\<not> greater_than_f False dbl_one dbl_one"
    using swo_gt' by blast
  moreover have "less_than_f True dbl_one dbl_nan"
    using swo_lt lt by blast
  moreover have "\<not> less_than_f True dbl_nan dbl_one"
    using swo_lt lt by blast
  moreover have "greater_than_f_pre False dbl_one dbl_nan"
    using swo_gtp gt by blast
  moreover have "\<not> greater_than_f_pre False dbl_nan dbl_one"
    using swo_gtp gt by blast
  ultimately show ?thesis
    using lt gt by simp
qed

text \<open>
  C6. When neither operand is NaN, \<open>less_than_f(a, b)\<close> is the native \<open>a < b\<close> and
  \<open>greater_than_f(a, b)\<close> is the native \<open>a > b\<close>, for both values of \<open>After\<close>.
\<close>

theorem comparisons_native:
  "\<not> isnan a \<Longrightarrow> \<not> isnan b \<Longrightarrow>
   less_than_f After a b = fp_lt a b \<and> greater_than_f After a b = fp_gt a b \<and>
   less_than_f_pre After a b = fp_lt a b \<and> greater_than_f_pre After a b = fp_gt a b"
  by (simp add: less_than_f_pre_eq greater_than_f_pre_eq less_than_f_alt greater_than_f_alt
      fp_lt_def fp_gt_def)

theorem comparisons_native_witness:
  "\<not> isnan dbl_one \<and> \<not> isnan dbl_two \<and> fp_lt dbl_one dbl_two \<and> \<not> fp_gt dbl_one dbl_two \<and>
   less_than_f True dbl_one dbl_two \<and> less_than_f False dbl_one dbl_two \<and>
   \<not> greater_than_f True dbl_one dbl_two \<and> \<not> greater_than_f False dbl_one dbl_two \<and>
   less_than_f_pre True dbl_one dbl_two \<and> \<not> greater_than_f_pre False dbl_one dbl_two"
  using comparisons_native [of dbl_one dbl_two True] comparisons_native [of dbl_one dbl_two False]
  by (simp add: fp_lt_def fp_gt_def)

text \<open>
  C7, as amended. \<open>greater_than_f\<close> mirrors \<open>less_than_f\<close> under the same \<open>After\<close>: on
  operands that are not NaN \<open>less_than_f(a, b) = greater_than_f(b, a)\<close>; both put NaN at
  the same extreme (with \<open>After\<close> true a NaN is greater than every other value for
  both); the mirroring holds for all operands, so a sequence is in order for
  \<open>less_than_f\<close> exactly when its reverse is in order for \<open>greater_than_f\<close>, and sorting
  the same elements with the two comparators gives sequences that are reverses of each
  other up to \<open>equal_to_f\<close>: element by element the one equals the reverse of the other
  under \<open>equal_to_f\<close>. Elements the comparators cannot tell apart, NaNs of different
  payloads and the two zeros, may stand in either order.
\<close>

theorem greater_than_f_mirror:
  "(\<not> isnan a \<and> \<not> isnan b \<longrightarrow>
      less_than_f After a b = greater_than_f After b a \<and>
      less_than_f_pre After a b = greater_than_f_pre After b a) \<and>
   (\<not> isnan x \<and> isnan n \<longrightarrow>
      less_than_f After x n = After \<and> greater_than_f After n x = After \<and>
      less_than_f After n x = (\<not> After) \<and> greater_than_f After x n = (\<not> After) \<and>
      less_than_f_pre After x n = After \<and> greater_than_f_pre After n x = After \<and>
      less_than_f_pre After n x = (\<not> After) \<and> greater_than_f_pre After x n = (\<not> After)) \<and>
   greater_than_f After c d = less_than_f After d c \<and>
   greater_than_f_pre After c d = less_than_f_pre After d c \<and>
   sorted_wrt (\<lambda>p q. \<not> greater_than_f After q p) (rev xs) =
     sorted_wrt (\<lambda>p q. \<not> less_than_f After q p) xs \<and>
   (mset ys = mset zs \<and>
    sorted_wrt (\<lambda>p q. \<not> less_than_f After q p) ys \<and>
    sorted_wrt (\<lambda>p q. \<not> greater_than_f After q p) zs \<longrightarrow>
      list_all2 equal_to_f zs (rev ys)) \<and>
   (mset ys' = mset zs' \<and>
    sorted_wrt (\<lambda>p q. \<not> less_than_f_pre After q p) ys' \<and>
    sorted_wrt (\<lambda>p q. \<not> greater_than_f_pre After q p) zs' \<longrightarrow>
      list_all2 equal_to_f_pre zs' (rev ys'))"
proof (intro conjI impI)
  assume "mset ys = mset zs \<and>
    sorted_wrt (\<lambda>p q. \<not> less_than_f After q p) ys \<and>
    sorted_wrt (\<lambda>p q. \<not> greater_than_f After q p) zs"
  then show "list_all2 equal_to_f zs (rev ys)"
    by (blast intro: sorts_reversed)
next
  assume "mset ys' = mset zs' \<and>
    sorted_wrt (\<lambda>p q. \<not> less_than_f_pre After q p) ys' \<and>
    sorted_wrt (\<lambda>p q. \<not> greater_than_f_pre After q p) zs'"
  then show "list_all2 equal_to_f_pre zs' (rev ys')"
    unfolding less_than_f_pre_fun greater_than_f_pre_fun equal_to_f_pre_fun
    by (blast intro: sorts_reversed)
qed (simp_all add: less_than_f_pre_eq greater_than_f_pre_eq greater_than_f_converse
    less_than_f_alt sorted_wrt_rev)

theorem greater_than_f_mirror_witness:
  "\<not> isnan dbl_one \<and> \<not> isnan dbl_two \<and> isnan dbl_nan \<and>
   less_than_f True dbl_one dbl_two \<and> greater_than_f True dbl_two dbl_one \<and>
   less_than_f True dbl_one dbl_nan \<and> greater_than_f True dbl_nan dbl_one \<and>
   \<not> less_than_f False dbl_one dbl_nan \<and> \<not> greater_than_f False dbl_nan dbl_one \<and>
   sorted_wrt (\<lambda>p q. \<not> less_than_f True q p)
     [dbl_minus_one, dbl_one, dbl_three, dbl_nan, dbl_nan_payload] \<and>
   sorted_wrt (\<lambda>p q. \<not> greater_than_f True q p)
     (rev [dbl_minus_one, dbl_one, dbl_three, dbl_nan, dbl_nan_payload]) \<and>
   mset [dbl_minus_one, dbl_one, dbl_three, dbl_nan, dbl_nan_payload] =
     mset [dbl_nan, dbl_nan_payload, dbl_three, dbl_one, dbl_minus_one] \<and>
   sorted_wrt (\<lambda>p q. \<not> greater_than_f True q p)
     [dbl_nan, dbl_nan_payload, dbl_three, dbl_one, dbl_minus_one] \<and>
   list_all2 equal_to_f [dbl_nan, dbl_nan_payload, dbl_three, dbl_one, dbl_minus_one]
     (rev [dbl_minus_one, dbl_one, dbl_three, dbl_nan, dbl_nan_payload])"
proof -
  have s: "sorted_wrt (\<lambda>p q. \<not> less_than_f True q p)
     [dbl_minus_one, dbl_one, dbl_three, dbl_nan, dbl_nan_payload]"
    by (simp add: less_than_f_alt)
  have g: "sorted_wrt (\<lambda>p q. \<not> greater_than_f True q p)
     [dbl_nan, dbl_nan_payload, dbl_three, dbl_one, dbl_minus_one]"
    by (simp add: greater_than_f_alt)
  have p: "mset [dbl_minus_one, dbl_one, dbl_three, dbl_nan, dbl_nan_payload] =
     mset [dbl_nan, dbl_nan_payload, dbl_three, dbl_one, dbl_minus_one]"
    by simp
  have lt: "less_than_f True dbl_one dbl_two"
    by (simp add: less_than_f_alt)
  have n: "\<not> isnan dbl_one" "\<not> isnan dbl_two" "isnan dbl_nan"
    by simp_all
  note m = greater_than_f_mirror [where a = dbl_one and b = dbl_two and x = dbl_one
      and n = dbl_nan and c = dbl_nan and d = dbl_one
      and xs = "[dbl_minus_one, dbl_one, dbl_three, dbl_nan, dbl_nan_payload]"
      and ys = "[dbl_minus_one, dbl_one, dbl_three, dbl_nan, dbl_nan_payload]"
      and zs = "[dbl_nan, dbl_nan_payload, dbl_three, dbl_one, dbl_minus_one]"
      and ys' = "[] :: double list" and zs' = "[] :: double list"]
  show ?thesis
    using s g p lt n m [where After = True] m [where After = False] by blast
qed

text \<open>
  C7 as stated has the two sorted sequences exactly reversed. The sequence \<open>+0.0, -0.0\<close>
  is in order for both comparators, and so is a sequence of two NaNs with different
  payloads; neither is its own reverse. A sort that leaves such a sequence as it is
  under both comparators returns the same sequence twice.
\<close>

theorem sorts_exactly_reversed_counterexample:
  "mset [dbl_pos_zero, dbl_neg_zero] = mset [dbl_pos_zero, dbl_neg_zero] \<and>
   sorted_wrt (\<lambda>p q. \<not> less_than_f True q p) [dbl_pos_zero, dbl_neg_zero] \<and>
   sorted_wrt (\<lambda>p q. \<not> greater_than_f True q p) [dbl_pos_zero, dbl_neg_zero] \<and>
   [dbl_pos_zero, dbl_neg_zero] \<noteq> rev [dbl_pos_zero, dbl_neg_zero] \<and>
   sorted_wrt (\<lambda>p q. \<not> less_than_f True q p) [dbl_nan, dbl_nan_payload] \<and>
   sorted_wrt (\<lambda>p q. \<not> greater_than_f True q p) [dbl_nan, dbl_nan_payload] \<and>
   [dbl_nan, dbl_nan_payload] \<noteq> rev [dbl_nan, dbl_nan_payload]"
proof -
  have "dbl_pos_zero \<noteq> dbl_neg_zero" and "dbl_nan \<noteq> dbl_nan_payload"
    by (simp_all add: dbl_defs)
  then show ?thesis
    by (simp add: less_than_f_alt greater_than_f_alt)
qed

text \<open>
  C8. The claim: each of the five operations rejects a type that is not floating-point
  when it is instantiated, with a message naming the operation. In the text compiled
  when three-way comparison is available, \<open>equal_to_f\<close> states no assertion: its
  \<^verbatim>\<open>static_assert\<close> stands in the other branch of the \<^verbatim>\<open>#if\<close>. Instantiated with
  \<^verbatim>\<open>int\<close> it reports nothing, where the pre-C++20 text and the other functions do.
\<close>

theorem equal_to_f_static_assert_missing:
  "equal_to_f_static_assert Three_way_comparison T_int = None \<and>
   equal_to_f_static_assert Pre_cpp20 T_int =
     Some ''equal_to_f can be used only with floating-point types.'' \<and>
   less_than_f_static_assert Three_way_comparison T_int =
     Some ''less_than_f can be used only with floating-point types.'' \<and>
   greater_than_f_static_assert Three_way_comparison T_int =
     Some ''greater_than_f can be used only with floating-point types.'' \<and>
   equal_to_vf_static_assert Three_way_comparison T_int =
     Some ''This class (equal_to_vf) can be used only with floating-point types.'' \<and>
   hash_vf_static_assert Three_way_comparison T_int =
     Some ''This class (hash_vf) can be used only with floating-point types.''"
  by (simp add: equal_to_f_static_assert_def less_than_f_static_assert_def
      greater_than_f_static_assert_def equal_to_vf_static_assert_def hash_vf_static_assert_def)

text \<open>
  C9. \<open>hash_vf\<close> of the empty sequence is the seed \<open>0\<close>, whatever the combiner, the
  format and the width of \<^verbatim>\<open>std::size_t\<close>. The function has no failing branch: it only
  walks its argument and calls the combiner.
\<close>

theorem hash_vf_empty: "hash_vf hash_combine [] = 0"
  by (simp add: hash_vf_def)

text \<open>
  C10. \<open>equal_to_f\<close> is the equivalence the ordering induces:
  \<open>equal_to_f(a, b)\<close> holds exactly when neither \<open>less_than_f(a, b)\<close> nor
  \<open>less_than_f(b, a)\<close> does, for both values of \<open>After\<close> and all values, NaNs, infinities
  and signed zeros included; and \<open>equal_to_f\<close> is reflexive, symmetric and transitive.
\<close>

theorem equal_to_f_induced:
  "equal_to_f a b = (\<not> less_than_f After a b \<and> \<not> less_than_f After b a) \<and>
   equal_to_f_pre a b = (\<not> less_than_f_pre After a b \<and> \<not> less_than_f_pre After b a) \<and>
   equal_to_f a a \<and>
   (equal_to_f a b \<longrightarrow> equal_to_f b a) \<and>
   (equal_to_f a b \<and> equal_to_f b c \<longrightarrow> equal_to_f a c)"
  by (auto simp: equal_to_f_pre_eq less_than_f_pre_eq equal_to_f_alt less_than_f_alt
      split: if_splits)

theorem equal_to_f_induced_witness:
  "equal_to_f dbl_nan dbl_nan_payload \<and> equal_to_f dbl_nan_payload dbl_nan \<and>
   equal_to_f dbl_nan dbl_nan \<and>
   \<not> less_than_f True dbl_nan dbl_nan_payload \<and> \<not> less_than_f True dbl_nan_payload dbl_nan \<and>
   \<not> less_than_f False dbl_nan dbl_nan_payload \<and> \<not> less_than_f False dbl_nan_payload dbl_nan \<and>
   equal_to_f dbl_pos_zero dbl_neg_zero \<and> equal_to_f dbl_neg_zero dbl_pos_zero \<and>
   \<not> less_than_f True dbl_pos_zero dbl_neg_zero \<and> \<not> less_than_f True dbl_neg_zero dbl_pos_zero \<and>
   \<not> equal_to_f dbl_pos_inf dbl_nan \<and> less_than_f True dbl_pos_inf dbl_nan \<and>
   \<not> equal_to_f dbl_neg_inf dbl_nan \<and> less_than_f False dbl_nan dbl_neg_inf"
proof -
  have e: "equal_to_f dbl_nan dbl_nan_payload" "equal_to_f dbl_pos_zero dbl_neg_zero"
    by (simp_all add: equal_to_f_alt)
  have l: "less_than_f True dbl_pos_inf dbl_nan" "less_than_f False dbl_nan dbl_neg_inf"
    by (simp_all add: less_than_f_alt)
  show ?thesis
    using e l
      equal_to_f_induced [of dbl_nan dbl_nan_payload True dbl_nan]
      equal_to_f_induced [of dbl_nan dbl_nan_payload False dbl_nan]
      equal_to_f_induced [of dbl_pos_zero dbl_neg_zero True dbl_pos_zero]
      equal_to_f_induced [of dbl_pos_inf dbl_nan True dbl_nan]
      equal_to_f_induced [of dbl_neg_inf dbl_nan False dbl_nan]
    by simp
qed

end
